theory Spec2Isabelle
  imports Complex_Main "HOL-Library.Word"
begin

section \<open>Data model of the well-grid application\<close>

text \<open>
  The development follows \<^verbatim>\<open>ht-qdotblot.py\<close>. Scene coordinates and the values
  NumPy computes in double precision are taken as exact rationals, so every statement
  below is about the arithmetic the source writes down, not about IEEE rounding.
  Python integers are \<^typ>\<open>int\<close>, image samples are 16-bit words.
\<close>

type_synonym point = "rat \<times> rat"
type_synonym u8 = "8 word"
type_synonym u16 = "16 word"
type_synonym image = "u16 list list"

text \<open>Exceptions the modelled code can raise.\<close>

datatype error = ValueError | EmptyInput

text \<open>
  A \<^verbatim>\<open>QGraphicsEllipseItem(x, y, w, h)\<close> and a \<^verbatim>\<open>QGraphicsLineItem\<close>, kept
  by their geometry only.
\<close>

record ellipse =
  ex :: rat
  ey :: rat
  ew :: rat
  eh :: rat

record line =
  lx1 :: rat
  ly1 :: rat
  lx2 :: rat
  ly2 :: rat

text \<open>
  One entry of \<^verbatim>\<open>self.measurements\<close>. The keys \<^verbatim>\<open>mean\<close> and \<^verbatim>\<open>stdev\<close>
  hold rounded floating-point values and are left out of the record.
\<close>

record measurement =
  well :: string
  x_center :: int
  y_center :: int
  median_intensity :: int
  mode :: int
  min_intensity :: int
  max_intensity :: int

text \<open>
  The fields of \<^verbatim>\<open>WellGridApp\<close> set by \<^verbatim>\<open>init_variables\<close>. Colours, file paths
  and the magnifier are display only and are not kept; the graphics scene is not
  part of the state, only the lists of items the application keeps itself.
\<close>

record state =
  images :: "image list"
  current_image :: "image option"
  roi_radius :: int
  nrows :: nat
  ncols :: nat
  grid_offset :: "int \<times> int"
  grid_spacing :: "int \<times> int"
  corners :: "point list"
  corner_points :: "ellipse list"
  corner_lines :: "line list"
  circles :: "ellipse list"
  labels :: "string list"
  measurements :: "measurement list"
  saturation_fraction :: rat
  defining_grid :: bool
  grid_defined :: bool
  spacing_increment :: int

definition ROI_RADIUS :: int where
  "ROI_RADIUS = 15"

definition SATURATION :: rat where
  "SATURATION = 5 / 100"

definition ROWS :: nat where
  "ROWS = 8"

definition COLUMNS :: nat where
  "COLUMNS = 12"

definition MAXINT16 :: rat where
  "MAXINT16 = 65535"

definition MAXINT8 :: rat where
  "MAXINT8 = 255"

definition init_variables :: state where
  "init_variables =
     \<lparr> images = [], current_image = None, roi_radius = ROI_RADIUS,
       nrows = ROWS, ncols = COLUMNS, grid_offset = (0, 0), grid_spacing = (0, 0),
       corners = [], corner_points = [], corner_lines = [], circles = [], labels = [],
       measurements = [], saturation_fraction = SATURATION,
       defining_grid = False, grid_defined = False, spacing_increment = 1 \<rparr>"

section \<open>Grid model\<close>

definition vadd :: "point \<Rightarrow> point \<Rightarrow> point" where
  "vadd a b = (fst a + fst b, snd a + snd b)"

definition vsub :: "point \<Rightarrow> point \<Rightarrow> point" where
  "vsub a b = (fst a - fst b, snd a - snd b)"

definition smul :: "rat \<Rightarrow> point \<Rightarrow> point" where
  "smul k a = (k * fst a, k * snd a)"

definition sdiv :: "point \<Rightarrow> rat \<Rightarrow> point" where
  "sdiv a k = (fst a / k, snd a / k)"

text \<open>\<^verbatim>\<open>chr(ord('A') + row)\<close> followed by \<^verbatim>\<open>f"{col + 1:02}"\<close>.\<close>

definition digit_char :: "nat \<Rightarrow> char" where
  "digit_char d = char_of (48 + d)"

fun str_nat :: "nat \<Rightarrow> string" where
  "str_nat n = (if n < 10 then [digit_char n] else str_nat (n div 10) @ [digit_char (n mod 10)])"

definition zero_pad2 :: "nat \<Rightarrow> string" where
  "zero_pad2 n = (if n < 10 then CHR ''0'' # str_nat n else str_nat n)"

definition get_well_name :: "nat \<Rightarrow> nat \<Rightarrow> string" where
  "get_well_name row col = char_of (65 + row) # zero_pad2 (col + 1)"

text \<open>
  \<^verbatim>\<open>erase_grid\<close> takes the drawn items off the graphics scene and leaves the
  lists of the application as they are.
\<close>

definition erase_grid :: "state \<Rightarrow> state" where
  "erase_grid s = s"

definition remove_grid :: "state \<Rightarrow> state" where
  "remove_grid s =
     (erase_grid s)\<lparr> circles := [], labels := [], corner_lines := [],
                     corner_points := [], corners := [] \<rparr>"

definition reset_grid :: "state \<Rightarrow> state" where
  "reset_grid s = (if grid_defined s then remove_grid (s\<lparr> grid_defined := False \<rparr>) else s)"

definition draw_orientation_lines :: "state \<Rightarrow> state" where
  "draw_orientation_lines s =
     (case corners s of
        [a1, a12, h1] \<Rightarrow>
          s\<lparr> corner_lines :=
               [ \<lparr> lx1 = fst a1, ly1 = snd a1, lx2 = fst a12, ly2 = snd a12 \<rparr>,
                 \<lparr> lx1 = fst a1, ly1 = snd a1, lx2 = fst h1, ly2 = snd h1 \<rparr> ] \<rparr>
      | _ \<Rightarrow> s)"

text \<open>
  The centre computed in the body of the double loop of \<^verbatim>\<open>draw_grid\<close>; \<open>a1\<close> is
  the first corner with the offset already added.
\<close>

definition center_of :: "point \<Rightarrow> point \<Rightarrow> point \<Rightarrow> int \<times> int \<Rightarrow> nat \<Rightarrow> nat \<Rightarrow> point" where
  "center_of a1 row_vec col_vec spacing i j =
     vadd (vadd a1 (smul (of_nat i) (vadd row_vec (0, of_int (snd spacing)))))
          (smul (of_nat j) (vadd col_vec (of_int (fst spacing), 0)))"

definition circle_at :: "point \<Rightarrow> int \<Rightarrow> ellipse" where
  "circle_at center r =
     \<lparr> ex = fst center - of_int r, ey = snd center - of_int r,
       ew = 2 * of_int r, eh = 2 * of_int r \<rparr>"

text \<open>
  \<^verbatim>\<open>draw_grid\<close>. The divisions by \<open>nrows - 1\<close> and \<open>ncols - 1\<close> are NumPy
  divisions; the source only ever runs them with 8 rows and 12 columns, and the
  statements below about the centres assume at least two of each.
\<close>

definition draw_grid :: "state \<Rightarrow> state" where
  "draw_grid s =
     (case corners s of
        [c0, c1, c2] \<Rightarrow>
          (let row_vec = sdiv (vsub c2 c0) (of_int (int (nrows s) - 1));
               col_vec = sdiv (vsub c1 c0) (of_int (int (ncols s) - 1));
               a1 = vadd c0 (of_int (fst (grid_offset s)), of_int (snd (grid_offset s)))
           in s\<lparr> circles :=
                    concat (map (\<lambda>i. map (\<lambda>j.
                        circle_at (center_of a1 row_vec col_vec (grid_spacing s) i j) (roi_radius s))
                      [0..<ncols s]) [0..<nrows s]),
                  labels :=
                    concat (map (\<lambda>i. map (\<lambda>j. get_well_name i j) [0..<ncols s]) [0..<nrows s]) \<rparr>)
      | _ \<Rightarrow> s)"

definition update_grid :: "state \<Rightarrow> state" where
  "update_grid s = draw_grid (draw_orientation_lines (erase_grid s))"

definition adjust_roi_radius :: "int \<Rightarrow> state \<Rightarrow> state" where
  "adjust_roi_radius v s = update_grid (s\<lparr> roi_radius := v \<rparr>)"

definition adjust_grid_spacing :: "string \<Rightarrow> int \<Rightarrow> state \<Rightarrow> state" where
  "adjust_grid_spacing direction v s =
     update_grid
       (if direction = ''width'' then
          s\<lparr> grid_spacing := (fst (grid_spacing s) + v, 0) \<rparr>
        else if direction = ''height'' then
          s\<lparr> grid_spacing := (0, snd (grid_spacing s) + v) \<rparr>
        else s)"

definition move_grid :: "int \<Rightarrow> int \<Rightarrow> state \<Rightarrow> state" where
  "move_grid dx dy s =
     update_grid (s\<lparr> grid_offset := (fst (grid_offset s) + dx, snd (grid_offset s) + dy) \<rparr>)"

section \<open>Grid definition: toggling and corner picking\<close>

definition define_grid :: "state \<Rightarrow> state" where
  "define_grid s =
     (if current_image s = None then s
      else (reset_grid s)\<lparr> grid_defined := False, defining_grid := True \<rparr>)"

definition reset_define_grid :: "state \<Rightarrow> state" where
  "reset_define_grid s = (reset_grid s)\<lparr> defining_grid := False \<rparr>"

definition toggle_define_grid_mode :: "state \<Rightarrow> state" where
  "toggle_define_grid_mode s =
     (if defining_grid s then reset_define_grid s
      else define_grid (if grid_defined s then reset_grid s else s))"

definition on_mouse_press :: "point \<Rightarrow> state \<Rightarrow> state" where
  "on_mouse_press p s =
     (if length (corners s) < 3 \<and> defining_grid s then
        (let s1 = s\<lparr> corners := corners s @ [p],
                     corner_points := corner_points s @
                       [\<lparr> ex = fst p - 5, ey = snd p - 5, ew = 10, eh = 10 \<rparr>] \<rparr>
         in if length (corners s1) = 3 then
              draw_grid (draw_orientation_lines (s1\<lparr> grid_defined := True, defining_grid := False \<rparr>))
            else s1)
      else s)"


text \<open>A sequence of presses of the width and height buttons.\<close>

fun adjust_all :: "(string \<times> int) list \<Rightarrow> state \<Rightarrow> state" where
  "adjust_all [] s = s"
| "adjust_all ((d, v) # cs) s = adjust_all cs (adjust_grid_spacing d v s)"

definition one_axis :: "state \<Rightarrow> bool" where
  "one_axis s = (fst (grid_spacing s) = 0 \<or> snd (grid_spacing s) = 0)"

section \<open>Image loading\<close>

text \<open>
  What \<^verbatim>\<open>cv2.imread\<close> hands back: an array of 8-bit or of 16-bit samples.
\<close>

datatype decoded = Gray8 "u8 list list" | Gray16 image

text \<open>
  OpenCV's \<^verbatim>\<open>cvRound\<close> (to nearest, ties to even) and \<^verbatim>\<open>saturate_cast<uchar>\<close>.
  \<^verbatim>\<open>cv2.convertScaleAbs(src, alpha)\<close> computes \<open>|src * alpha|\<close> and always stores
  the result as an 8-bit sample.
\<close>

definition cvRound :: "rat \<Rightarrow> int" where
  "cvRound x =
     (let f = \<lfloor>x\<rfloor>; d = x - of_int f
      in if d < 1 / 2 then f else if 1 / 2 < d then f + 1 else if even f then f else f + 1)"

definition saturate_cast_uchar :: "int \<Rightarrow> u8" where
  "saturate_cast_uchar v = (if v < 0 then 0 else if 255 < v then 255 else word_of_int v)"

definition convertScaleAbs :: "rat \<Rightarrow> u8 \<Rightarrow> u8" where
  "convertScaleAbs alpha v = saturate_cast_uchar (cvRound \<bar>of_nat (unat v) * alpha\<bar>)"

text \<open>
  The two statements of \<^verbatim>\<open>load_image\<close> under \<^verbatim>\<open>if img.dtype != np.uint16\<close>, on
  one sample: \<^verbatim>\<open>convertScaleAbs\<close> with \<open>alpha = MAXINT16 / MAXINT8\<close>, then
  \<^verbatim>\<open>astype(np.uint16)\<close>.
\<close>

definition promote_sample :: "u8 \<Rightarrow> u16" where
  "promote_sample v = ucast (convertScaleAbs (MAXINT16 / MAXINT8) v)"

definition update_image :: "state \<Rightarrow> state" where
  "update_image s = (if current_image s \<noteq> None then update_grid s else s)"

definition show_image :: "nat \<Rightarrow> state \<Rightarrow> state" where
  "show_image selected_idx s =
     (if selected_idx < length (images s)
      then update_image (s\<lparr> current_image := Some (images s ! selected_idx) \<rparr>)
      else s)"

definition load_image :: "decoded \<Rightarrow> state \<Rightarrow> state" where
  "load_image d s =
     (let img = (case d of Gray16 i \<Rightarrow> i | Gray8 i \<Rightarrow> map (map promote_sample) i);
          s1 = s\<lparr> images := images s @ [img] \<rparr>
      in if length (images s1) = 1 then show_image 0 s1 else s1)"

section \<open>Contrast adjustment\<close>

text \<open>
  A double as NumPy sees it: a finite value, an infinity or not-a-number. NumPy's
  division does not raise on a zero divisor; it yields an infinity or NaN.
\<close>

datatype npfloat = Finite rat | PosInf | NegInf | NaN

definition np_div :: "rat \<Rightarrow> rat \<Rightarrow> npfloat" where
  "np_div a b =
     (if b \<noteq> 0 then Finite (a / b)
      else if 0 < a then PosInf else if a < 0 then NegInf else NaN)"

fun np_clip :: "npfloat \<Rightarrow> rat \<Rightarrow> rat \<Rightarrow> npfloat" where
  "np_clip (Finite x) lo hi = Finite (min (max x lo) hi)"
| "np_clip PosInf lo hi = Finite hi"
| "np_clip NegInf lo hi = Finite lo"
| "np_clip NaN lo hi = NaN"

definition py_int :: "rat \<Rightarrow> int" where
  "py_int x = (if 0 \<le> x then \<lfloor>x\<rfloor> else \<lceil>x\<rceil>)"

text \<open>
  \<^verbatim>\<open>astype(np.uint16)\<close> truncates a finite value; the cast of NaN has no defined
  result, which is \<open>None\<close> here.
\<close>

fun astype_uint16 :: "npfloat \<Rightarrow> u16 option" where
  "astype_uint16 (Finite x) = Some (word_of_int (py_int x))"
| "astype_uint16 _ = None"

text \<open>
  \<^verbatim>\<open>np.percentile\<close> with its default linear interpolation, on the flattened
  samples. A percentage outside \<open>[0, 100]\<close> raises \<^verbatim>\<open>ValueError\<close>.
\<close>

definition percentile :: "rat list \<Rightarrow> rat \<Rightarrow> error + rat" where
  "percentile xs q =
     (if q < 0 \<or> 100 < q then Inl ValueError
      else if xs = [] then Inl EmptyInput
      else
        (let srt = sort xs;
             n = length srt;
             virtual_index = q / 100 * (of_nat n - 1);
             previous = nat \<lfloor>virtual_index\<rfloor>;
             next_index = min (previous + 1) (n - 1);
             gamma = virtual_index - of_nat previous
         in Inr (srt ! previous + gamma * (srt ! next_index - srt ! previous))))"

definition sample_val :: "u16 \<Rightarrow> rat" where
  "sample_val v = of_nat (unat v)"

text \<open>The expression of \<^verbatim>\<open>adjust_image\<close> before the cast, on one sample.\<close>

definition stretch :: "rat \<Rightarrow> rat \<Rightarrow> u16 \<Rightarrow> npfloat" where
  "stretch v_min v_max v =
     np_clip (np_div ((sample_val v - v_min) * MAXINT16) (v_max - v_min)) 0 MAXINT16"

definition adjust_image :: "rat \<Rightarrow> image \<Rightarrow> error + u16 option list list" where
  "adjust_image fraction img =
     (let samples = map sample_val (concat img)
      in case percentile samples 0 of
           Inl e \<Rightarrow> Inl e
         | Inr v_min \<Rightarrow>
             (case percentile samples (100 - fraction * 100) of
                Inl e \<Rightarrow> Inl e
              | Inr v_max \<Rightarrow> Inr (map (map (\<lambda>v. astype_uint16 (stretch v_min v_max v))) img)))"

section \<open>Measurement\<close>

text \<open>A Python slice \<^verbatim>\<open>xs[start:stop]\<close>: a negative bound counts from the end.\<close>

definition py_slice :: "int \<Rightarrow> int \<Rightarrow> 'a list \<Rightarrow> 'a list" where
  "py_slice start stop xs =
     (let n = int (length xs);
          lo = (if start < 0 then max (start + n) 0 else min start n);
          hi = (if stop < 0 then max (stop + n) 0 else min stop n)
      in take (nat (hi - lo)) (drop (nat lo) xs))"

definition shape0 :: "image \<Rightarrow> int" where
  "shape0 img = int (length img)"

definition shape1 :: "image \<Rightarrow> int" where
  "shape1 img = (case img of [] \<Rightarrow> 0 | r # _ \<Rightarrow> int (length r))"

text \<open>\<^verbatim>\<open>roi_pixels\<close> of \<^verbatim>\<open>measure_grid\<close>: the slice of the current image.\<close>

definition roi_pixels :: "image \<Rightarrow> int \<Rightarrow> int \<Rightarrow> int \<Rightarrow> image" where
  "roi_pixels img center_x center_y radius =
     (let x_min = max 0 (center_x - radius);
          x_max = min (shape1 img) (center_x + radius);
          y_min = max 0 (center_y - radius);
          y_max = min (shape0 img) (center_y + radius)
      in map (py_slice x_min x_max) (py_slice y_min y_max img))"

text \<open>
  \<^verbatim>\<open>np.bincount\<close> counts every value from 0 up to the largest one present;
  \<^verbatim>\<open>np.argmax\<close> returns the first index of the largest entry and raises
  \<^verbatim>\<open>ValueError\<close> on an empty array.
\<close>

definition bincount :: "nat list \<Rightarrow> nat list" where
  "bincount xs = (if xs = [] then [] else map (count_list xs) [0..<Suc (Max (set xs))])"

fun argmax_loop :: "nat \<Rightarrow> nat \<Rightarrow> nat \<Rightarrow> nat list \<Rightarrow> nat" where
  "argmax_loop best bv i [] = best"
| "argmax_loop best bv i (c # cs) =
     (if bv < c then argmax_loop i c (Suc i) cs else argmax_loop best bv (Suc i) cs)"

definition argmax :: "nat list \<Rightarrow> error + nat" where
  "argmax cs = (case cs of [] \<Rightarrow> Inl ValueError | c # cs' \<Rightarrow> Inr (argmax_loop 0 c 1 cs'))"

definition mode_of :: "nat list \<Rightarrow> error + nat" where
  "mode_of vals = argmax (bincount vals)"

definition median_of :: "nat list \<Rightarrow> int" where
  "median_of vals =
     (let srt = sort vals; n = length srt
      in if odd n then int (srt ! (n div 2))
         else (int (srt ! (n div 2 - 1)) + int (srt ! (n div 2))) div 2)"

definition rect_center :: "ellipse \<Rightarrow> point" where
  "rect_center e = (ex e + ew e / 2, ey e + eh e / 2)"

text \<open>
  The body of the loop of \<^verbatim>\<open>measure_grid\<close> for the circle of index \<open>i\<close>. The
  mean, the median and the standard deviation of an empty window are NaN with a
  warning; the first statement that raises there is the \<^verbatim>\<open>argmax\<close> of the mode.
\<close>

definition measure_circle :: "image \<Rightarrow> int \<Rightarrow> nat \<Rightarrow> nat \<Rightarrow> ellipse \<Rightarrow> error + measurement" where
  "measure_circle img r n_cols i circ =
     (let center = rect_center circ;
          center_x = py_int (fst center);
          center_y = py_int (snd center);
          vals = map unat (concat (roi_pixels img center_x center_y r))
      in case mode_of vals of
           Inl e \<Rightarrow> Inl e
         | Inr m \<Rightarrow>
             Inr \<lparr> well = get_well_name (i div n_cols) (i mod n_cols),
                   x_center = center_x, y_center = center_y,
                   median_intensity = median_of vals, mode = int m,
                   min_intensity = int (Min (set vals)),
                   max_intensity = int (Max (set vals)) \<rparr>)"

text \<open>
  The loop over the circles. An exception leaves the loop with the records appended
  so far.
\<close>

fun measure_loop ::
  "image \<Rightarrow> int \<Rightarrow> nat \<Rightarrow> nat \<Rightarrow> ellipse list \<Rightarrow> measurement list \<Rightarrow> error \<times> measurement list + measurement list" where
  "measure_loop img r n_cols i [] acc = Inr acc"
| "measure_loop img r n_cols i (c # cs) acc =
     (case measure_circle img r n_cols i c of
        Inl e \<Rightarrow> Inl (e, acc)
      | Inr m \<Rightarrow> measure_loop img r n_cols (Suc i) cs (acc @ [m]))"

text \<open>
  \<^verbatim>\<open>measure_grid\<close>: \<open>Inr\<close> is the state after a normal return, \<open>Inl\<close> the
  exception together with the state it leaves behind.
\<close>

definition measure_grid :: "state \<Rightarrow> error \<times> state + state" where
  "measure_grid s =
     (case current_image s of
        None \<Rightarrow> Inr s
      | Some img \<Rightarrow>
          if circles s = [] then Inr s
          else (case measure_loop img (roi_radius s) (ncols s) 0 (circles s) [] of
                  Inl (e, ms) \<Rightarrow> Inl (e, s\<lparr> measurements := ms \<rparr>)
                | Inr ms \<Rightarrow> Inr (s\<lparr> measurements := ms \<rparr>)))"

text \<open>
  The window as the specification words it: the pixels \<open>(x, y)\<close> of the image with
  \<open>cx - r \<le> x < cx + r\<close> and \<open>cy - r \<le> y < cy + r\<close>.
\<close>

definition in_window :: "int \<Rightarrow> int \<Rightarrow> nat \<Rightarrow> bool" where
  "in_window c r k = (c - r \<le> int k \<and> int k < c + r)"

definition pick :: "(nat \<Rightarrow> bool) \<Rightarrow> 'a list \<Rightarrow> 'a list" where
  "pick P xs = map snd (filter (\<lambda>(k, x). P k) (zip [0..<length xs] xs))"

definition spec_window :: "image \<Rightarrow> int \<Rightarrow> int \<Rightarrow> int \<Rightarrow> image" where
  "spec_window img cx cy r = map (pick (in_window cx r)) (pick (in_window cy r) img)"

text \<open>
  A session that loads a 16-bit image, starts grid definition and picks three corners.
\<close>

definition picked_session :: "image \<Rightarrow> point \<Rightarrow> point \<Rightarrow> point \<Rightarrow> state" where
  "picked_session img p0 p1 p2 =
     on_mouse_press p2 (on_mouse_press p1 (on_mouse_press p0
       (toggle_define_grid_mode (load_image (Gray16 img) init_variables))))"

text \<open>The exception, if any, that a call of \<^verbatim>\<open>measure_grid\<close> ended with.\<close>

definition raised :: "error \<times> state + state \<Rightarrow> error option" where
  "raised r = (case r of Inl (e, _) \<Rightarrow> Some e | Inr _ \<Rightarrow> None)"

text \<open>An image of \<open>h\<close> rows and \<open>w\<close> columns with the same sample everywhere.\<close>

definition flat_image :: "nat \<Rightarrow> nat \<Rightarrow> u16 \<Rightarrow> image" where
  "flat_image h w v = replicate h (replicate w v)"


section \<open>Frame lemmas\<close>

lemma draw_orientation_lines_frame:
  "grid_spacing (draw_orientation_lines s) = grid_spacing s"
  "grid_offset (draw_orientation_lines s) = grid_offset s"
  "corners (draw_orientation_lines s) = corners s"
  "circles (draw_orientation_lines s) = circles s"
  "nrows (draw_orientation_lines s) = nrows s"
  "ncols (draw_orientation_lines s) = ncols s"
  "roi_radius (draw_orientation_lines s) = roi_radius s"
  by (simp_all add: draw_orientation_lines_def split: list.splits)

lemma draw_grid_frame:
  "grid_spacing (draw_grid s) = grid_spacing s"
  "grid_offset (draw_grid s) = grid_offset s"
  "corners (draw_grid s) = corners s"
  by (simp_all add: draw_grid_def Let_def split: list.splits)

lemma update_grid_frame:
  "grid_spacing (update_grid s) = grid_spacing s"
  "grid_offset (update_grid s) = grid_offset s"
  "corners (update_grid s) = corners s"
  by (simp_all add: update_grid_def erase_grid_def draw_grid_frame draw_orientation_lines_frame)

lemma update_grid_flags:
  "grid_defined (update_grid s) = grid_defined s"
  "defining_grid (update_grid s) = defining_grid s"
  "current_image (update_grid s) = current_image s"
  by (simp_all add: update_grid_def erase_grid_def draw_grid_def draw_orientation_lines_def
      Let_def split: list.splits)


lemma adjust_grid_spacing_width:
  "grid_spacing (adjust_grid_spacing ''width'' v s) = (fst (grid_spacing s) + v, 0)"
  by (simp add: adjust_grid_spacing_def update_grid_frame)

lemma adjust_grid_spacing_height:
  "grid_spacing (adjust_grid_spacing ''height'' v s) = (0, snd (grid_spacing s) + v)"
  by (simp add: adjust_grid_spacing_def update_grid_frame)

lemma adjust_grid_spacing_one_axis:
  "one_axis s \<Longrightarrow> one_axis (adjust_grid_spacing d v s)"
  by (simp add: adjust_grid_spacing_def update_grid_frame one_axis_def)

lemma adjust_all_one_axis:
  "one_axis s \<Longrightarrow> one_axis (adjust_all cs s)"
  by (induction cs arbitrary: s) (auto simp: adjust_grid_spacing_one_axis)

section \<open>A session up to the first picked corner\<close>

lemma loaded:
  "load_image (Gray16 img) init_variables =
     init_variables\<lparr> images := [img], current_image := Some img \<rparr>"
  by (simp add: load_image_def show_image_def update_image_def update_grid_def erase_grid_def
      draw_orientation_lines_def draw_grid_def init_variables_def Let_def)

lemma picking:
  "toggle_define_grid_mode (load_image (Gray16 img) init_variables) =
     init_variables\<lparr> images := [img], current_image := Some img, defining_grid := True \<rparr>"
  unfolding loaded
  by (simp add: toggle_define_grid_mode_def define_grid_def reset_grid_def init_variables_def)

lemma one_corner:
  "on_mouse_press p (toggle_define_grid_mode (load_image (Gray16 img) init_variables)) =
     init_variables\<lparr> images := [img], current_image := Some img, defining_grid := True,
       corners := [p],
       corner_points := [\<lparr> ex = fst p - 5, ey = snd p - 5, ew = 10, eh = 10 \<rparr>] \<rparr>"
  unfolding picking
  by (simp add: on_mouse_press_def init_variables_def Let_def)

section \<open>Spacing adjustment\<close>

text \<open>
  Claim C9. After any sequence of calls of \<^verbatim>\<open>adjust_grid_spacing\<close>, from the initial
  state or from any state in which at most one axis of the spacing is non-zero, at
  most one axis of the spacing is non-zero. A call for the width adds the value to the
  first component and sets the second to zero; a call for the height adds the value to
  the second component and sets the first to zero.
\<close>

theorem spacing_mutual_exclusion:
  assumes "one_axis s"
  shows "one_axis (adjust_all cs s) \<and>
         one_axis (adjust_all cs init_variables) \<and>
         grid_spacing (adjust_grid_spacing ''width'' v s) = (fst (grid_spacing s) + v, 0) \<and>
         grid_spacing (adjust_grid_spacing ''height'' v s) = (0, snd (grid_spacing s) + v)"
proof -
  have "one_axis init_variables"
    by (simp add: one_axis_def init_variables_def)
  then show ?thesis
    using assms
    by (simp add: adjust_all_one_axis adjust_grid_spacing_width adjust_grid_spacing_height)
qed

theorem spacing_mutual_exclusion_witness:
  "one_axis init_variables \<and>
   one_axis (adjust_all [(''width'', 2), (''height'', - 1), (''width'', 3)] init_variables) \<and>
   grid_spacing (adjust_grid_spacing ''width'' 2 init_variables) = (2, 0) \<and>
   grid_spacing (adjust_grid_spacing ''height'' 2 init_variables) = (0, 2)"
proof -
  have h: "one_axis init_variables"
    by (simp add: one_axis_def init_variables_def)
  have g: "grid_spacing init_variables = (0, 0)"
    by (simp add: init_variables_def)
  from spacing_mutual_exclusion [OF h, of "[(''width'', 2), (''height'', - 1), (''width'', 3)]" 2]
  show ?thesis
    unfolding g using h by simp
qed

section \<open>Cancelling a grid definition\<close>

text \<open>
  Claim C5. Cancelling while corners are being picked should leave no corner behind.
  In the source \<^verbatim>\<open>reset_define_grid\<close> calls \<^verbatim>\<open>reset_grid\<close>, which removes the grid
  only when \<^verbatim>\<open>grid_defined\<close> is set, and that flag is never set while picking. After
  an image is loaded, grid definition is started, one corner is picked at \<open>(10, 10)\<close>
  and grid definition is toggled off, the corner is still stored.
\<close>

theorem cancel_mid_pick_keeps_corner:
  "corners (toggle_define_grid_mode (on_mouse_press (10, 10)
      (toggle_define_grid_mode (load_image (Gray16 [[1000]]) init_variables)))) = [(10, 10)]"
  unfolding one_corner
  by (simp add: toggle_define_grid_mode_def reset_define_grid_def reset_grid_def
      init_variables_def)


lemma picked_session_fields:
  "corners (picked_session img p0 p1 p2) = [p0, p1, p2]"
  "grid_defined (picked_session img p0 p1 p2)"
  "\<not> defining_grid (picked_session img p0 p1 p2)"
  "current_image (picked_session img p0 p1 p2) = Some img"
  "nrows (picked_session img p0 p1 p2) = ROWS"
  "ncols (picked_session img p0 p1 p2) = COLUMNS"
  "grid_offset (picked_session img p0 p1 p2) = (0, 0)"
  "grid_spacing (picked_session img p0 p1 p2) = (0, 0)"
  "roi_radius (picked_session img p0 p1 p2) = ROI_RADIUS"
  unfolding picked_session_def one_corner
  by (simp_all add: on_mouse_press_def Let_def draw_grid_def draw_orientation_lines_def
      init_variables_def)


section \<open>The centres of the grid\<close>

lemma length_grid_list:
  "length (concat (map (\<lambda>i. map (f i) [0..<C]) [0..<R])) = R * C"
  by (induction R) simp_all

lemma nth_grid_list:
  assumes "i < R" "j < C"
  shows "concat (map (\<lambda>i. map (f i) [0..<C]) [0..<R]) ! (i * C + j) = f i j"
  using assms
proof (induction R)
  case 0
  then show ?case by simp
next
  case (Suc R)
  show ?case
  proof (cases "i < R")
    case True
    have "i * C + j < R * C"
    proof -
      have "i * C + j < i * C + C" using Suc.prems by simp
      also have "\<dots> = Suc i * C" by simp
      also have "\<dots> \<le> R * C" using True by (intro mult_le_mono1) simp
      finally show ?thesis .
    qed
    then show ?thesis
      using Suc True by (simp add: nth_append length_grid_list)
  next
    case False
    then have "i = R" using Suc.prems by simp
    then show ?thesis
      using Suc.prems by (simp add: nth_append length_grid_list)
  qed
qed

lemma rect_center_circle_at: "rect_center (circle_at c r) = c"
  by (simp add: rect_center_def circle_at_def)




lemma circles_draw_grid:
  assumes "corners s = [c0, c1, c2]"
  shows "circles (draw_grid s) =
     concat (map (\<lambda>i. map (\<lambda>j.
        circle_at (center_of (vadd c0 (of_int (fst (grid_offset s)), of_int (snd (grid_offset s))))
            (sdiv (vsub c2 c0) (of_int (int (nrows s) - 1)))
            (sdiv (vsub c1 c0) (of_int (int (ncols s) - 1))) (grid_spacing s) i j) (roi_radius s))
        [0..<ncols s]) [0..<nrows s])"
  using assms by (simp add: draw_grid_def Let_def)

lemma center_draw_grid:
  assumes c: "corners s = [(x0, y0), (x1, y1), (x2, y2)]"
    and off: "grid_offset s = (dx, dy)" and sp: "grid_spacing s = (sx, sy)"
    and i: "i < nrows s" and j: "j < ncols s"
  shows "rect_center (circles (draw_grid s) ! (i * ncols s + j)) =
       (x0 + of_int dx + of_nat i * ((x2 - x0) / (of_nat (nrows s) - 1))
           + of_nat j * ((x1 - x0) / (of_nat (ncols s) - 1) + of_int sx),
        y0 + of_int dy + of_nat i * ((y2 - y0) / (of_nat (nrows s) - 1) + of_int sy)
           + of_nat j * ((y1 - y0) / (of_nat (ncols s) - 1)))"
  unfolding circles_draw_grid [OF c] nth_grid_list [OF i j] rect_center_circle_at
  by (simp add: center_of_def vadd_def vsub_def smul_def sdiv_def off sp)



section \<open>Starting a new grid definition\<close>








section \<open>Loading an 8-bit image\<close>

lemma cvRound_of_int: "cvRound (of_int z) = z"
  by (simp add: cvRound_def Let_def)

lemma cvRound_scaled: "cvRound \<bar>of_nat n * (257::rat)\<bar> = int n * 257"
proof -
  have "\<bar>of_nat n * (257::rat)\<bar> = of_int (int n * 257)"
    by (simp add: abs_mult)
  then show ?thesis
    using cvRound_of_int by metis
qed

lemma saturate_scaled: "saturate_cast_uchar (int n * 257) = (if n = 0 then 0 else 255)"
proof (cases "n = 0")
  case True
  then show ?thesis by (simp add: saturate_cast_uchar_def)
next
  case False
  then have "255 < int n * 257" by arith
  then show ?thesis using False by (simp add: saturate_cast_uchar_def)
qed

lemma convertScaleAbs_257:
  "convertScaleAbs (MAXINT16 / MAXINT8) v = (if v = 0 then 0 else 255)"
proof -
  have r: "MAXINT16 / MAXINT8 = 257"
    by (simp add: MAXINT16_def MAXINT8_def)
  have z: "(unat v = 0) = (v = 0)"
    by (simp add: unat_eq_0)
  show ?thesis
    unfolding convertScaleAbs_def r cvRound_scaled saturate_scaled z ..
qed

lemma promote_sample_saturates: "promote_sample v = (if v = 0 then 0 else 255)"
  by (simp add: promote_sample_def convertScaleAbs_257)

text \<open>
  Claim C4. An 8-bit sample should enter the session multiplied by \<open>65535 / 255\<close>, so
  that 255 becomes 65535. The source scales with \<^verbatim>\<open>cv2.convertScaleAbs\<close>, whose result
  is an 8-bit array saturated at 255, and widens it afterwards: loading the 8-bit row
  \<open>[255, 1, 0]\<close> stores \<open>[255, 255, 0]\<close>.
\<close>

theorem load_image_8bit_saturates:
  "images (load_image (Gray8 [[255, 1, 0]]) init_variables) = [[[255, 255, 0]]]"
  by (simp add: load_image_def show_image_def update_image_def update_grid_def erase_grid_def
      draw_orientation_lines_def draw_grid_def promote_sample_saturates init_variables_def Let_def)

section \<open>The mode of a window\<close>

lemma argmax_loop_spec:
  assumes "length pre = i" "best < i" "pre ! best = bv"
    "\<forall>k<i. pre ! k \<le> bv" "\<forall>k<best. pre ! k < bv"
  shows "argmax_loop best bv i cs < length (pre @ cs) \<and>
         (\<forall>k<length (pre @ cs). (pre @ cs) ! k \<le> (pre @ cs) ! argmax_loop best bv i cs) \<and>
         (\<forall>k<argmax_loop best bv i cs. (pre @ cs) ! k < (pre @ cs) ! argmax_loop best bv i cs)"
  using assms
proof (induction cs arbitrary: pre best bv i)
  case Nil
  then show ?case by simp
next
  case (Cons c cs)
  show ?case
  proof (cases "bv < c")
    case True
    have "argmax_loop i c (Suc i) cs < length ((pre @ [c]) @ cs) \<and>
         (\<forall>k<length ((pre @ [c]) @ cs). ((pre @ [c]) @ cs) ! k \<le> ((pre @ [c]) @ cs) ! argmax_loop i c (Suc i) cs) \<and>
         (\<forall>k<argmax_loop i c (Suc i) cs. ((pre @ [c]) @ cs) ! k < ((pre @ [c]) @ cs) ! argmax_loop i c (Suc i) cs)"
    proof (rule Cons.IH)
      show "length (pre @ [c]) = Suc i" using Cons.prems by simp
      show "i < Suc i" by simp
      show "(pre @ [c]) ! i = c" using Cons.prems(1) by (auto simp: nth_append)
      show "\<forall>k<Suc i. (pre @ [c]) ! k \<le> c"
        using Cons.prems True by (auto simp: nth_append less_Suc_eq intro: order_trans less_imp_le)
      show "\<forall>k<i. (pre @ [c]) ! k < c"
        using Cons.prems True by (auto simp: nth_append intro: le_less_trans)
    qed
    then show ?thesis using True by simp
  next
    case False
    have "argmax_loop best bv (Suc i) cs < length ((pre @ [c]) @ cs) \<and>
         (\<forall>k<length ((pre @ [c]) @ cs). ((pre @ [c]) @ cs) ! k \<le> ((pre @ [c]) @ cs) ! argmax_loop best bv (Suc i) cs) \<and>
         (\<forall>k<argmax_loop best bv (Suc i) cs. ((pre @ [c]) @ cs) ! k < ((pre @ [c]) @ cs) ! argmax_loop best bv (Suc i) cs)"
    proof (rule Cons.IH)
      show "length (pre @ [c]) = Suc i" using Cons.prems by simp
      show "best < Suc i" using Cons.prems by simp
      show "(pre @ [c]) ! best = bv" using Cons.prems by (simp add: nth_append)
      show "\<forall>k<Suc i. (pre @ [c]) ! k \<le> bv"
        using Cons.prems False by (auto simp: nth_append less_Suc_eq)
      show "\<forall>k<best. (pre @ [c]) ! k < bv"
        using Cons.prems by (auto simp: nth_append)
    qed
    then show ?thesis using False by simp
  qed
qed

lemma argmax_spec:
  assumes "cs \<noteq> []"
  shows "\<exists>m. argmax cs = Inr m \<and> m < length cs \<and> (\<forall>k<length cs. cs ! k \<le> cs ! m) \<and>
             (\<forall>k<m. cs ! k < cs ! m)"
proof -
  from assms obtain c cs' where cs: "cs = c # cs'" by (cases cs) auto
  have "argmax_loop 0 c 1 cs' < length ([c] @ cs') \<and>
         (\<forall>k<length ([c] @ cs'). ([c] @ cs') ! k \<le> ([c] @ cs') ! argmax_loop 0 c 1 cs') \<and>
         (\<forall>k<argmax_loop 0 c 1 cs'. ([c] @ cs') ! k < ([c] @ cs') ! argmax_loop 0 c 1 cs')"
    by (rule argmax_loop_spec) simp_all
  then show ?thesis
    by (simp add: cs argmax_def)
qed

lemma bincount_nth:
  assumes "vals \<noteq> []" "v \<le> Max (set vals)"
  shows "bincount vals ! v = count_list vals v"
  using assms by (simp add: bincount_def del: upt_Suc)

lemma bincount_length:
  assumes "vals \<noteq> []"
  shows "length (bincount vals) = Suc (Max (set vals))"
  using assms by (simp add: bincount_def del: upt_Suc)

lemma count_beyond_max:
  assumes "Max (set vals) < v"
  shows "count_list vals v = 0"
proof -
  have "v \<notin> set vals"
  proof
    assume "v \<in> set vals"
    then have "v \<le> Max (set vals)" by simp
    with assms show False by simp
  qed
  then show ?thesis by (simp add: count_list_0_iff)
qed


lemma mode_of_spec:
  assumes "vals \<noteq> []"
  shows "\<exists>m. mode_of vals = Inr m \<and> m \<in> set vals \<and>
           (\<forall>v. count_list vals v \<le> count_list vals m) \<and>
           (\<forall>v. count_list vals v = count_list vals m \<longrightarrow> m \<le> v)"
proof -
  let ?M = "Max (set vals)"
  have ne: "bincount vals \<noteq> []"
    using assms by (simp add: bincount_def del: upt_Suc)
  from argmax_spec [OF ne] obtain m where
    m: "argmax (bincount vals) = Inr m" and
    lt: "m < length (bincount vals)" and
    mx: "\<forall>k<length (bincount vals). bincount vals ! k \<le> bincount vals ! m" and
    fst: "\<forall>k<m. bincount vals ! k < bincount vals ! m"
    by blast
  have mM: "m \<le> ?M"
    using lt by (simp add: bincount_length [OF assms])
  have cm: "bincount vals ! m = count_list vals m"
    using assms mM by (rule bincount_nth)
  have most: "count_list vals v \<le> count_list vals m" for v
  proof (cases "v \<le> ?M")
    case True
    then have "bincount vals ! v \<le> bincount vals ! m"
      using mx by (simp add: bincount_length [OF assms])
    then show ?thesis
      by (simp add: cm bincount_nth [OF assms True])
  next
    case False
    then show ?thesis by (simp add: count_beyond_max)
  qed
  have "0 < count_list vals (hd vals)"
    using assms by (cases vals) simp_all
  with most [of "hd vals"] have "0 < count_list vals m" by simp
  then have mem: "m \<in> set vals"
    using count_list_0_iff [of vals m] by auto
  have least: "m \<le> v" if "count_list vals v = count_list vals m" for v
  proof (rule ccontr)
    assume "\<not> m \<le> v"
    then have vm: "v < m" by simp
    then have "bincount vals ! v < bincount vals ! m"
      using fst by simp
    moreover have "v \<le> ?M" using vm mM by simp
    ultimately have "count_list vals v < count_list vals m"
      by (simp add: cm bincount_nth [OF assms])
    with that show False by simp
  qed
  show ?thesis
    using m mem most least by (auto simp: mode_of_def)
qed

lemma mode_examples:
  "mode_of [5, 5, 5, 7, 9] = Inr 5" "mode_of [1, 1, 2, 2] = Inr 1"
  by code_simp+

text \<open>
  Claim C8. For a window that is not empty the mode statistic,
  \<^verbatim>\<open>np.argmax(np.bincount(...))\<close>, is a value of the window that no other value
  exceeds in frequency, and it is the smallest among the values of that frequency.
  The window \<open>[5, 5, 5, 7, 9]\<close> has mode 5 and the tie \<open>[1, 1, 2, 2]\<close> has mode 1.
\<close>

theorem mode_smallest_most_frequent:
  assumes "vals \<noteq> []"
  shows "(\<exists>m. mode_of vals = Inr m \<and> m \<in> set vals \<and>
            (\<forall>v. count_list vals v \<le> count_list vals m) \<and>
            (\<forall>v. count_list vals v = count_list vals m \<longrightarrow> m \<le> v)) \<and>
         mode_of [5, 5, 5, 7, 9] = Inr 5 \<and> mode_of [1, 1, 2, 2] = Inr 1"
  using mode_of_spec [OF assms] mode_examples by blast

theorem mode_smallest_most_frequent_witness:
  "[1, 1, 2, 2 :: nat] \<noteq> [] \<and>
   (\<exists>m. mode_of [1, 1, 2, 2] = Inr m \<and> m \<in> set [1, 1, 2, 2 :: nat] \<and>
      (\<forall>v. count_list [1, 1, 2, 2 :: nat] v \<le> count_list [1, 1, 2, 2 :: nat] m) \<and>
      (\<forall>v. count_list [1, 1, 2, 2 :: nat] v = count_list [1, 1, 2, 2 :: nat] m \<longrightarrow> m \<le> v))"
proof -
  have h: "[1, 1, 2, 2 :: nat] \<noteq> []"
    by simp
  show ?thesis
    using h mode_smallest_most_frequent [OF h] by blast
qed

section \<open>Measuring a window without pixels\<close>

lemma measure_circle_error:
  "measure_circle img r n i c = Inl e \<Longrightarrow> e = ValueError"
  by (auto simp: measure_circle_def mode_of_def argmax_def Let_def split: sum.splits list.splits)

lemma measure_circle_empty:
  assumes "concat (roi_pixels img (py_int (fst (rect_center c))) (py_int (snd (rect_center c))) r) = []"
  shows "measure_circle img r n i c = Inl ValueError"
  using assms by (simp add: measure_circle_def mode_of_def argmax_def bincount_def Let_def)

lemma measure_loop_raises:
  assumes "c \<in> set cs"
    "concat (roi_pixels img (py_int (fst (rect_center c))) (py_int (snd (rect_center c))) r) = []"
  shows "\<exists>ms. measure_loop img r n i cs acc = Inl (ValueError, ms)"
  using assms
proof (induction cs arbitrary: i acc)
  case Nil
  then show ?case by simp
next
  case (Cons c' cs)
  show ?case
  proof (cases "measure_circle img r n i c'")
    case (Inl e)
    then show ?thesis
      using measure_circle_error [OF Inl] by simp
  next
    case (Inr m)
    then have "c' \<noteq> c"
      using measure_circle_empty [OF Cons.prems(2), of n i] by auto
    then have "c \<in> set cs"
      using Cons.prems(1) by simp
    then show ?thesis
      using Cons.IH Cons.prems(2) Inr by simp
  qed
qed

lemma measure_grid_raises:
  assumes "current_image s = Some img" "c \<in> set (circles s)"
    "concat (roi_pixels img (py_int (fst (rect_center c))) (py_int (snd (rect_center c)))
       (roi_radius s)) = []"
  shows "raised (measure_grid s) = Some ValueError"
proof -
  from measure_loop_raises [OF assms(2,3)] obtain ms where
    "measure_loop img (roi_radius s) (ncols s) 0 (circles s) [] = Inl (ValueError, ms)"
    by blast
  moreover have "circles s \<noteq> []"
    using assms(2) by auto
  ultimately show ?thesis
    using assms(1) by (simp add: measure_grid_def raised_def)
qed

lemma shape_flat_image:
  "shape0 (flat_image h w v) = int h" "0 < h \<Longrightarrow> shape1 (flat_image h w v) = int w"
  by (cases h; simp add: shape0_def shape1_def flat_image_def)+

lemma update_grid_radius:
  "roi_radius (update_grid s) = roi_radius s"
  "nrows (update_grid s) = nrows s"
  "ncols (update_grid s) = ncols s"
  by (simp_all add: update_grid_def erase_grid_def draw_grid_def draw_orientation_lines_def
      Let_def split: list.splits)

lemma py_slice_empty:
  "int (length xs) \<le> start \<Longrightarrow> 0 \<le> stop \<Longrightarrow> py_slice start stop xs = []"
  by (simp add: py_slice_def Let_def)

text \<open>
  Claim C2. A well whose window holds no pixel should be skipped or filled with
  sentinel values. The source computes the statistics of every window without a test:
  on a window without pixels \<^verbatim>\<open>np.argmax\<close> raises \<^verbatim>\<open>ValueError\<close> and the
  measurement ends there. On a 100 by 100 image with the corners \<open>(10, 10)\<close>,
  \<open>(90, 10)\<close>, \<open>(10, 90)\<close> and the width spacing increased by 20, the fifth well of
  the first row has its centre at \<open>x = 119\<close>, its window is empty, and
  \<^verbatim>\<open>measure_grid\<close> raises.
\<close>

theorem measure_grid_empty_window_raises:
  "raised (measure_grid (adjust_grid_spacing ''width'' 20
      (picked_session (flat_image 100 100 1000) (10, 10) (90, 10) (10, 90)))) = Some ValueError"
proof -
  let ?img = "flat_image 100 100 1000"
  let ?p = "picked_session ?img (10, 10) (90, 10) (10, 90)"
  let ?t = "draw_orientation_lines (?p\<lparr> grid_spacing := (20, 0) \<rparr>)"
  let ?s = "adjust_grid_spacing ''width'' 20 ?p"
  have s: "?s = draw_grid ?t"
    by (simp add: adjust_grid_spacing_def update_grid_def erase_grid_def picked_session_fields)
  have c: "corners ?t = [(10, 10), (90, 10), (10, 90)]"
    and off: "grid_offset ?t = (0, 0)" and sp: "grid_spacing ?t = (20, 0)"
    and n: "nrows ?t = 8" "ncols ?t = 12"
    by (simp_all add: draw_orientation_lines_frame picked_session_fields ROWS_def COLUMNS_def)
  have "rect_center (circles (draw_grid ?t) ! (0 * ncols ?t + 4)) =
       (10 + of_int 0 + of_nat 0 * ((10 - 10) / (of_nat (nrows ?t) - 1))
           + of_nat 4 * ((90 - 10) / (of_nat (ncols ?t) - 1) + of_int 20),
        10 + of_int 0 + of_nat 0 * ((90 - 10) / (of_nat (nrows ?t) - 1) + of_int 0)
           + of_nat 4 * ((10 - 10) / (of_nat (ncols ?t) - 1)))"
    by (rule center_draw_grid [OF c off sp]) (simp_all add: n)
  then have centre: "rect_center (circles ?s ! 4) = (1310 / 11, 10)"
    unfolding s by (simp add: n)
  have len: "length (circles ?s) = 96"
    unfolding s circles_draw_grid [OF c] length_grid_list by (simp add: n)
  have mem: "circles ?s ! 4 \<in> set (circles ?s)"
    by (rule nth_mem) (simp add: len)
  have img: "current_image ?s = Some ?img" and r: "roi_radius ?s = 15"
    by (simp_all add: adjust_grid_spacing_def update_grid_flags update_grid_radius
        picked_session_fields ROI_RADIUS_def)
  have x: "py_int (1310 / 11) = 119"
    by (simp add: py_int_def floor_eq_iff)
  have y: "py_int 10 = 10"
    by (simp add: py_int_def)
  have sh: "shape0 ?img = 100" "shape1 ?img = 100"
    by (simp_all add: shape_flat_image)
  have rows: "py_slice 0 25 ?img = replicate 25 (replicate 100 1000)"
    by (simp add: py_slice_def flat_image_def Let_def)
  have "roi_pixels ?img 119 10 15 = map (py_slice 104 100) (replicate 25 (replicate 100 1000))"
    by (simp add: roi_pixels_def sh rows Let_def)
  then have "concat (roi_pixels ?img 119 10 15) = []"
    by (simp add: py_slice_empty)
  then have "concat (roi_pixels ?img (py_int (fst (rect_center (circles ?s ! 4))))
      (py_int (snd (rect_center (circles ?s ! 4)))) (roi_radius ?s)) = []"
    unfolding centre r fst_conv snd_conv x y .
  with img mem show ?thesis
    by (rule measure_grid_raises)
qed

section \<open>The measurement window\<close>

text \<open>
  The window of the specification is a take and drop of the rows and of the columns.
  Where the centre is not more than the radius to the left of or above the image, the
  slice of the source is that window.
\<close>

lemma pick_snoc:
  "pick P (xs @ [x]) = pick P xs @ (if P (length xs) then [x] else [])"
  by (simp add: pick_def)

lemma pick_range: "pick (\<lambda>k. l \<le> k \<and> k < h) xs = take (h - l) (drop l xs)"
proof (induction xs rule: rev_induct)
  case Nil
  then show ?case by (simp add: pick_def)
next
  case (snoc x xs)
  then show ?case
    by (auto simp: pick_snoc)
qed

lemma in_window_nat: "in_window c r = (\<lambda>k. nat (c - r) \<le> k \<and> k < nat (c + r))"
  by (auto simp: in_window_def fun_eq_iff)

lemma pick_in_window:
  "pick (in_window c r) xs = take (nat (c + r) - nat (c - r)) (drop (nat (c - r)) xs)"
  unfolding in_window_nat by (rule pick_range)

lemma py_slice_nonneg:
  assumes "0 \<le> start" "0 \<le> stop"
  shows "py_slice start stop xs =
     take (nat (min stop (int (length xs)) - min start (int (length xs))))
       (drop (nat (min start (int (length xs)))) xs)"
  using assms by (simp add: py_slice_def Let_def)

lemma py_slice_clamped:
  assumes "0 \<le> c + r" "n = int (length xs)"
  shows "py_slice (max 0 (c - r)) (min n (c + r)) xs =
         take (nat (c + r) - nat (c - r)) (drop (nat (c - r)) xs)"
proof -
  let ?n = "int (length xs)"
  have eq: "py_slice (max 0 (c - r)) (min n (c + r)) xs =
     take (nat (min (min ?n (c + r)) ?n - min (max 0 (c - r)) ?n))
       (drop (nat (min (max 0 (c - r)) ?n)) xs)"
    unfolding assms(2) by (rule py_slice_nonneg) (use assms in simp_all)
  show ?thesis
  proof (cases "?n \<le> c - r")
    case True
    then have "length xs \<le> nat (min (max 0 (c - r)) ?n)" "length xs \<le> nat (c - r)"
      by simp_all
    then show ?thesis
      unfolding eq by simp
  next
    case False
    then have lo: "nat (min (max 0 (c - r)) ?n) = nat (c - r)"
      by simp
    show ?thesis
    proof (cases "c + r \<le> ?n")
      case True
      then have "nat (min (min ?n (c + r)) ?n - min (max 0 (c - r)) ?n) = nat (c + r) - nat (c - r)"
        using False assms(1) by (simp add: min_def max_def) linarith?
      then show ?thesis
        unfolding eq lo by simp
    next
      case False2: False
      have k: "nat (min (min ?n (c + r)) ?n - min (max 0 (c - r)) ?n) = length xs - nat (c - r)"
        using False False2 by (simp add: min_def max_def) linarith?
      have "length (drop (nat (c - r)) xs) \<le> nat (c + r) - nat (c - r)"
        using False2 by simp linarith?
      then have "take (nat (c + r) - nat (c - r)) (drop (nat (c - r)) xs) = drop (nat (c - r)) xs"
        by (rule take_all)
      then show ?thesis
        unfolding eq lo k by simp
    qed
  qed
qed

lemma spec_window_take_drop:
  "spec_window img cx cy r =
     map (\<lambda>row. take (nat (cx + r) - nat (cx - r)) (drop (nat (cx - r)) row))
       (take (nat (cy + r) - nat (cy - r)) (drop (nat (cy - r)) img))"
  by (simp add: spec_window_def pick_in_window)

lemma roi_pixels_clamped:
  assumes "0 \<le> cx + r" "0 \<le> cy + r" "\<forall>row\<in>set img. int (length row) = shape1 img"
  shows "roi_pixels img cx cy r = spec_window img cx cy r"
proof -
  let ?rows = "take (nat (cy + r) - nat (cy - r)) (drop (nat (cy - r)) img)"
  have rows: "py_slice (max 0 (cy - r)) (min (shape0 img) (cy + r)) img = ?rows"
    using assms(2) by (rule py_slice_clamped) (simp add: shape0_def)
  have "set ?rows \<subseteq> set img"
    by (meson set_take_subset set_drop_subset subset_trans)
  then have "\<forall>row\<in>set ?rows. int (length row) = shape1 img"
    using assms(3) by blast
  then have "map (py_slice (max 0 (cx - r)) (min (shape1 img) (cx + r))) ?rows =
        map (\<lambda>row. take (nat (cx + r) - nat (cx - r)) (drop (nat (cx - r)) row)) ?rows"
    using assms(1) by (intro map_cong refl py_slice_clamped) simp_all
  then show ?thesis
    by (simp add: roi_pixels_def Let_def rows spec_window_take_drop)
qed

lemma move_grid_fields:
  "corners (move_grid dx dy s) = corners s"
  "nrows (move_grid dx dy s) = nrows s"
  "ncols (move_grid dx dy s) = ncols s"
  "grid_spacing (move_grid dx dy s) = grid_spacing s"
  "grid_offset (move_grid dx dy s) = (fst (grid_offset s) + dx, snd (grid_offset s) + dy)"
  by (simp_all add: move_grid_def update_grid_frame update_grid_radius)

lemma move_grid_repeated:
  "corners ((move_grid dx dy ^^ n) s) = corners s \<and>
   nrows ((move_grid dx dy ^^ n) s) = nrows s \<and>
   ncols ((move_grid dx dy ^^ n) s) = ncols s \<and>
   grid_spacing ((move_grid dx dy ^^ n) s) = grid_spacing s \<and>
   grid_offset ((move_grid dx dy ^^ n) s) =
     (fst (grid_offset s) + int n * dx, snd (grid_offset s) + int n * dy)"
  by (induction n) (simp_all add: move_grid_fields algebra_simps)

lemma move_grid_circles:
  "circles (move_grid dx dy s) = circles (draw_grid (move_grid dx dy s))"
  by (simp add: move_grid_def update_grid_def erase_grid_def draw_grid_def
      draw_orientation_lines_def Let_def split: list.splits)

text \<open>
  Claim C6. The window should be the square \<open>[cx - r, cx + r) \<times> [cy - r, cy + r)\<close>
  clamped to the image, without wrap-around. The source clamps the upper bounds with
  \<^verbatim>\<open>min\<close> only, and a negative upper bound of a Python slice counts from the end.
  After 26 presses of the left button on a grid picked at \<open>(10, 10)\<close>, \<open>(90, 10)\<close>,
  \<open>(10, 90)\<close> on a 100 by 100 image, the first well has the centre \<open>(-16, 10)\<close>: the
  clamped window has no column, and the source measures 25 rows of 99 columns.
\<close>

theorem roi_pixels_wraps_left_of_image:
  "py_int (fst (rect_center (circles ((move_grid (- 1) 0 ^^ 26)
      (picked_session (flat_image 100 100 1000) (10, 10) (90, 10) (10, 90))) ! 0))) = - 16 \<and>
   py_int (snd (rect_center (circles ((move_grid (- 1) 0 ^^ 26)
      (picked_session (flat_image 100 100 1000) (10, 10) (90, 10) (10, 90))) ! 0))) = 10 \<and>
   roi_pixels (flat_image 100 100 1000) (- 16) 10 15 = flat_image 25 99 1000 \<and>
   spec_window (flat_image 100 100 1000) (- 16) 10 15 = flat_image 25 0 1000"
proof -
  let ?img = "flat_image 100 100 1000"
  let ?p = "picked_session ?img (10, 10) (90, 10) (10, 90)"
  let ?q = "(move_grid (- 1) 0 ^^ 25) ?p"
  let ?s = "(move_grid (- 1) 0 ^^ 26) ?p"
  have "(26::nat) = Suc 25" by simp
  then have s: "?s = move_grid (- 1) 0 ?q"
    by (simp only: funpow.simps o_apply)
  have q: "corners ?q = [(10, 10), (90, 10), (10, 90)]" "nrows ?q = 8" "ncols ?q = 12"
    "grid_spacing ?q = (0, 0)" "grid_offset ?q = (- 25, 0)"
    using move_grid_repeated [where dx = "- 1" and dy = 0 and n = 25 and s = ?p]
    by (simp_all add: picked_session_fields ROWS_def COLUMNS_def)
  have c: "corners ?s = [(10, 10), (90, 10), (10, 90)]"
    and off: "grid_offset ?s = (- 26, 0)" and sp: "grid_spacing ?s = (0, 0)"
    and n: "nrows ?s = 8" "ncols ?s = 12"
    unfolding s by (simp_all add: move_grid_fields q)
  have "rect_center (circles (draw_grid ?s) ! (0 * ncols ?s + 0)) =
       (10 + of_int (- 26) + of_nat 0 * ((10 - 10) / (of_nat (nrows ?s) - 1))
           + of_nat 0 * ((90 - 10) / (of_nat (ncols ?s) - 1) + of_int 0),
        10 + of_int 0 + of_nat 0 * ((90 - 10) / (of_nat (nrows ?s) - 1) + of_int 0)
           + of_nat 0 * ((10 - 10) / (of_nat (ncols ?s) - 1)))"
    by (rule center_draw_grid [OF c off sp]) (simp_all add: n)
  moreover have "circles ?s = circles (draw_grid ?s)"
    unfolding s by (rule move_grid_circles)
  ultimately have centre: "rect_center (circles ?s ! 0) = (- 16, 10)"
    by simp
  have x: "py_int (- 16) = - 16" and y: "py_int 10 = 10"
    by (simp_all add: py_int_def)
  have sh: "shape0 ?img = 100" "shape1 ?img = 100"
    by (simp_all add: shape_flat_image)
  have rows: "py_slice 0 25 ?img = replicate 25 (replicate 100 1000)"
    by (simp add: py_slice_def flat_image_def Let_def)
  have cols: "py_slice 0 (- 1) (replicate 100 (1000 :: u16)) = replicate 99 1000"
    by (simp add: py_slice_def Let_def)
  have roi: "roi_pixels ?img (- 16) 10 15 = flat_image 25 99 1000"
    by (simp add: roi_pixels_def sh rows cols Let_def) (simp add: flat_image_def)
  have spec: "spec_window ?img (- 16) 10 15 = flat_image 25 0 1000"
    by (simp add: spec_window_take_drop flat_image_def)
  show ?thesis
    unfolding centre fst_conv snd_conv x y using roi spec by simp
qed

section \<open>Contrast adjustment of an image with a range\<close>









lemma samples_nonempty: "concat img \<noteq> [] \<Longrightarrow> map sample_val (concat img) \<noteq> []"
  by simp





lemma sample_val_numerals:
  "sample_val 0 = 0" "sample_val 50 = 50" "sample_val 100 = 100" "sample_val 200 = 200"
  "sample_val 1 = 1" "sample_val 2 = 2" "sample_val 1000 = 1000"
  by (simp_all add: sample_val_def)



section \<open>Contrast adjustment of an image without a range\<close>

lemma concat_flat_image: "concat (flat_image h w v) = replicate (h * w) v"
  by (induction h) (simp_all add: flat_image_def replicate_add)

lemma percentile_replicate:
  assumes "0 < n" "0 \<le> q" "q \<le> 100"
  shows "percentile (replicate n x) q = Inr x"
proof -
  let ?vi = "q / 100 * (of_nat n - 1)"
  have srt: "sort (replicate n x) = replicate n x"
    by (simp add: sorted_sort_id)
  have "?vi \<le> of_nat n - 1"
  proof -
    have "q / 100 \<le> 1" using assms by simp
    moreover have "(0::rat) \<le> of_nat n - 1" using assms by simp
    ultimately have "q / 100 * (of_nat n - 1) \<le> 1 * (of_nat n - 1)"
      by (rule mult_right_mono)
    then show ?thesis by simp
  qed
  then have "?vi < of_nat n"
    by simp
  then have "\<lfloor>?vi\<rfloor> < int n"
    by (simp add: floor_less_iff)
  then have p: "nat \<lfloor>?vi\<rfloor> < n"
    using assms(1) by simp
  have nx: "min (nat \<lfloor>?vi\<rfloor> + 1) (n - 1) < n"
    using assms(1) by simp
  have ne: "replicate n x \<noteq> []"
    using assms(1) by simp
  have g: "\<not> (q < 0 \<or> 100 < q)"
    using assms by simp
  show ?thesis
    unfolding percentile_def Let_def srt length_replicate
    by (simp only: g ne if_False nth_replicate [OF p] nth_replicate [OF nx] diff_self
        mult_zero_right add_0_right)
qed

lemma stretch_degenerate:
  "sample_val v = x \<Longrightarrow> stretch x x v = NaN"
  by (simp add: stretch_def np_div_def)

lemma adjust_image_flat:
  assumes "0 < h" "0 < w" "0 \<le> f" "f \<le> 1"
  shows "adjust_image f (flat_image h w v) = Inr (replicate h (replicate w None))"
proof -
  have n: "0 < h * w" using assms by simp
  have s: "map sample_val (concat (flat_image h w v)) = replicate (h * w) (sample_val v)"
    by (simp add: concat_flat_image)
  have q0: "0 \<le> 100 - f * 100" and q1: "100 - f * 100 \<le> 100"
    using assms by simp_all
  have p0: "percentile (replicate (h * w) (sample_val v)) 0 = Inr (sample_val v)"
    by (rule percentile_replicate [OF n]) simp_all
  have p1: "percentile (replicate (h * w) (sample_val v)) (100 - f * 100) = Inr (sample_val v)"
    by (rule percentile_replicate [OF n q0 q1])
  show ?thesis
    unfolding adjust_image_def Let_def s p0 p1
    by (simp add: flat_image_def stretch_degenerate)
qed

text \<open>
  Claim C3. When \<open>v_max\<close> equals \<open>v_min\<close> the adjuster should not divide by zero.
  The source divides without a test. On the 100 by 100 image of constant 1000, with the
  default saturation, every sample is \<open>0 / 0\<close>, which is NaN, and NaN reaches the
  cast to 16 bits at every position. With the saturation fraction 1 on the row
  \<open>[1, 2]\<close> both percentiles are 1: the first sample is NaN and the second is
  \<open>65535 / 0\<close>, an infinity that the clipping turns into 65535.
\<close>

theorem adjust_image_divides_by_zero:
  "adjust_image SATURATION (flat_image 100 100 1000) = Inr (replicate 100 (replicate 100 None)) \<and>
   stretch 1000 1000 1000 = NaN \<and>
   adjust_image 1 [[1, 2]] = Inr [[None, Some 65535]]"
proof -
  have a: "adjust_image SATURATION (flat_image 100 100 1000) = Inr (replicate 100 (replicate 100 None))"
    by (rule adjust_image_flat) (simp_all add: SATURATION_def)
  have b: "stretch 1000 1000 1000 = NaN"
    by (rule stretch_degenerate) (simp add: sample_val_def)
  have s: "sort [1, 2 :: rat] = [1, 2]"
    by simp
  have p: "percentile [1, 2] 0 = Inr 1"
    by (simp add: percentile_def Let_def)
  have c: "adjust_image 1 [[1, 2]] = Inr [[None, Some 65535]]"
    by (simp add: adjust_image_def Let_def sample_val_numerals p stretch_def np_div_def
        MAXINT16_def py_int_def)
  from a b c show ?thesis by simp
qed

end
